theory Spec2Isabelle
  imports Main "HOL-Library.Sublist"
begin

section \<open>The outbound transport and the HTTP client\<close>

text \<open>
  \<^verbatim>\<open>server.js\<close> reaches the network in one place only, the call
  \<^verbatim>\<open>axios.get(url, { headers: getHeaders(), timeout: 10000, maxRedirects: 5 })\<close>
  inside \<^verbatim>\<open>makeRequest\<close>. What the network does on one such call is an input of
  the model: either the exchange fails below HTTP (timeout, connection error, DNS failure),
  or some HTTP response comes back, with a status code and a body. Redirects are followed
  by the client inside one call, so the response is the one that ends the chain.
\<close>

type_synonym url = string

record response =
  status :: nat
  data :: string

datatype net_failure = Timeout | ConnectionError | DnsFailure

datatype outcome = NetFail net_failure | Http response

text \<open>
  The transport tells, for a target and the number (from 0) of the GET issued to it during
  one call of \<^verbatim>\<open>makeRequest\<close>, what that GET meets.
\<close>

type_synonym transport = "url \<Rightarrow> nat \<Rightarrow> outcome"

text \<open>
  The promise returned by \<^verbatim>\<open>axios.get\<close> is rejected on a transport failure, and
  also when the option \<^verbatim>\<open>validateStatus\<close> returns false for the status of the
  response. The call site sets \<^verbatim>\<open>headers\<close>, \<^verbatim>\<open>timeout\<close> and
  \<^verbatim>\<open>maxRedirects\<close> and leaves \<^verbatim>\<open>validateStatus\<close> at the client's default,
  \<^verbatim>\<open>status >= 200 && status < 300\<close>.
\<close>

datatype axios_error = NetworkError net_failure | BadStatus response

record axios_config =
  headers :: "(string \<times> string) list"
  timeout :: nat
  maxRedirects :: nat
  validateStatus :: "nat \<Rightarrow> bool"

definition getHeaders :: "(string \<times> string) list" where
  "getHeaders =
     [(''User-Agent'', ''Mozilla/5.0 (Windows NT 10.0; Win64; x64) AppleWebKit/537.36 (KHTML, like Gecko) Chrome/91.0.4472.124 Safari/537.36''),
      (''Accept'', ''text/html,application/xhtml+xml,application/xml;q=0.9,image/webp,*/*;q=0.8''),
      (''Accept-Language'', ''de-DE,de;q=0.9,en;q=0.8''),
      (''Accept-Encoding'', ''gzip, deflate, br''),
      (''Connection'', ''keep-alive''),
      (''Upgrade-Insecure-Requests'', ''1'')]"

definition axios_default_validateStatus :: "nat \<Rightarrow> bool" where
  "axios_default_validateStatus s = (200 \<le> s \<and> s < 300)"

definition request_config :: axios_config where
  "request_config =
     \<lparr>headers = getHeaders, timeout = 10000, maxRedirects = 5,
      validateStatus = axios_default_validateStatus\<rparr>"

definition axios_get :: "axios_config \<Rightarrow> outcome \<Rightarrow> axios_error + response" where
  "axios_get cfg out =
     (case out of
        NetFail f \<Rightarrow> Inl (NetworkError f)
      | Http r \<Rightarrow> if validateStatus cfg (status r) then Inr r else Inl (BadStatus r))"

section \<open>makeRequest\<close>

text \<open>
  An \<^verbatim>\<open>async\<close> function ends by resolving its promise with a value or by rejecting
  it with the error thrown. \<^verbatim>\<open>makeRequest\<close> resolves with \<^verbatim>\<open>response.data\<close>,
  or with \<^verbatim>\<open>undefined\<close> when the loop falls through.

  What a call does besides is recorded as a list of events, in order: the line written by
  \<^verbatim>\<open>console.log\<close> before an attempt (with the attempt number \<open>i + 1\<close>), the GET
  itself, the line written by \<^verbatim>\<open>console.error\<close> when the attempt failed, and the
  suspension \<^verbatim>\<open>setTimeout(resolve, 1000 * (i + 1))\<close>, in milliseconds.
\<close>

datatype js_value = Undefined | Payload string

datatype completion = Returned js_value | Thrown axios_error

datatype event =
    LogRequest url nat
  | Get url axios_config
  | LogFailed nat axios_error
  | Sleep nat
  | ConsoleLog string
  | ConsoleError string

text \<open>
  The loop \<^verbatim>\<open>for (let i = 0; i < retries; i++)\<close>, entered at index \<open>i\<close>. The bound
  \<open>retries\<close> is whatever integer the caller passes, so it is an \<open>int\<close>; the index
  starts at 0 and only grows.
\<close>

function makeRequest_loop :: "transport \<Rightarrow> url \<Rightarrow> int \<Rightarrow> nat \<Rightarrow> completion \<times> event list" where
  "makeRequest_loop tr u retries i =
     (if int i < retries then
        (case axios_get request_config (tr u i) of
           Inr resp \<Rightarrow>
             (Returned (Payload (data resp)), [LogRequest u (i + 1), Get u request_config])
         | Inl err \<Rightarrow>
             if int i = retries - 1 then
               (Thrown err, [LogRequest u (i + 1), Get u request_config, LogFailed (i + 1) err])
             else
               (case makeRequest_loop tr u retries (i + 1) of
                  (c, evs) \<Rightarrow>
                    (c, [LogRequest u (i + 1), Get u request_config, LogFailed (i + 1) err,
                         Sleep (1000 * (i + 1))] @ evs)))
      else (Returned Undefined, []))"
  by pat_completeness auto
termination
  by (relation "measure (\<lambda>(tr, u, retries, i). nat (retries - int i))") auto

definition makeRequest :: "transport \<Rightarrow> url \<Rightarrow> int \<Rightarrow> completion \<times> event list" where
  "makeRequest tr u retries = makeRequest_loop tr u retries 0"

text \<open>The default parameter \<^verbatim>\<open>retries = 2\<close>: an omitted argument is \<open>None\<close>.\<close>

definition makeRequest_opt :: "transport \<Rightarrow> url \<Rightarrow> int option \<Rightarrow> completion \<times> event list" where
  "makeRequest_opt tr u r = makeRequest tr u (case r of None \<Rightarrow> 2 | Some n \<Rightarrow> n)"

text \<open>Observations on a run: the GETs issued and the suspensions, in order.\<close>

fun is_Get :: "event \<Rightarrow> bool" where
  "is_Get (Get u c) = True"
| "is_Get e = False"

definition attempts :: "event list \<Rightarrow> nat" where
  "attempts evs = length (filter is_Get evs)"

fun delays :: "event list \<Rightarrow> nat list" where
  "delays [] = []"
| "delays (Sleep d # evs) = d # delays evs"
| "delays (e # evs) = delays evs"

fun logged_errors :: "event list \<Rightarrow> (nat \<times> axios_error) list" where
  "logged_errors [] = []"
| "logged_errors (LogFailed k e # evs) = (k, e) # logged_errors evs"
| "logged_errors (e # evs) = logged_errors evs"

text \<open>
  Where the suspensions stand in a run: each one directly after the line that reports the
  failure of an attempt \<open>k\<close> and directly before the line that announces attempt
  \<open>k + 1\<close>, and \<open>1000 * k\<close> milliseconds long.
\<close>

fun placed_from :: "event option \<Rightarrow> event list \<Rightarrow> bool" where
  "placed_from prev [] = True"
| "placed_from prev (ev # evs) =
     ((case ev of
         Sleep d \<Rightarrow>
           (case prev of
              Some (LogFailed k e) \<Rightarrow>
                d = 1000 * k \<and> (case evs of LogRequest v j # rest \<Rightarrow> j = k + 1 | _ \<Rightarrow> False)
            | _ \<Rightarrow> False)
       | _ \<Rightarrow> True)
      \<and> placed_from (Some ev) evs)"

definition backoff_placed :: "event list \<Rightarrow> bool" where
  "backoff_placed evs = placed_from None evs"

section \<open>Strings and numbers of the handlers\<close>

text \<open>
  A JavaScript string is modelled by the bytes of its UTF-8 encoding, so a \<open>string\<close> of
  ASCII characters is itself. The listings' titles are ASCII; the euro sign of the prices
  and the umlauts of the fixed texts are written byte by byte.
\<close>

definition euro :: string where
  "euro = [CHR 0xE2, CHR 0x82, CHR 0xAC]"

definition ae :: string where
  "ae = [CHR 0xC3, CHR 0xA4]"

definition oe :: string where
  "oe = [CHR 0xC3, CHR 0xB6]"

definition ue :: string where
  "ue = [CHR 0xC3, CHR 0xBC]"

text \<open>
  \<^verbatim>\<open>s.toLowerCase()\<close>. The letters A to Z map to a to z. Outside ASCII the bytes stay
  as they are, with one exception: the Kelvin sign U+212A (bytes E2 84 AA) is the one
  non-ASCII character whose lower case is an ASCII letter, \<open>k\<close>. Every other non-ASCII
  character keeps a non-ASCII byte in its lower case, as it does here, so the matches
  against the ASCII titles are those of the source.
\<close>

definition lower_char :: "char \<Rightarrow> char" where
  "lower_char c =
     (if 65 \<le> (of_char c :: nat) \<and> (of_char c :: nat) \<le> 90
      then char_of ((of_char c :: nat) + 32) else c)"

definition kelvin :: string where
  "kelvin = [CHR 0xE2, CHR 0x84, CHR 0xAA]"

fun toLowerCase :: "string \<Rightarrow> string" where
  "toLowerCase [] = []"
| "toLowerCase (c # cs) =
     (if prefix kelvin (c # cs) then CHR ''k'' # toLowerCase (drop 2 cs)
      else lower_char c # toLowerCase cs)"

text \<open>\<^verbatim>\<open>h.includes(n)\<close>: \<open>n\<close> occurs in \<open>h\<close> as a contiguous run.\<close>

definition includes_str :: "string \<Rightarrow> string \<Rightarrow> bool" where
  "includes_str h n = sublist n h"

text \<open>
  A JavaScript number, as far as the handlers meet one: \<^verbatim>\<open>NaN\<close> or an integer.
  \<^verbatim>\<open>parseInt\<close> returns the double nearest to the integer it reads; the prices it is
  compared with are below 2000, where doubles are exact and the rounding of a larger
  bound cannot change the comparison, so the integer itself is kept.
\<close>

datatype number = NaN | Num int

text \<open>\<^verbatim>\<open>a <= b\<close> on numbers: false as soon as one side is \<^verbatim>\<open>NaN\<close>.\<close>

fun js_le :: "number \<Rightarrow> number \<Rightarrow> bool" where
  "js_le (Num a) (Num b) = (a \<le> b)"
| "js_le a b = False"

text \<open>
  The white space \<^verbatim>\<open>parseInt\<close> skips at the start of its argument: tab, line feed,
  vertical tab, form feed, carriage return, space, and the encodings of U+00A0, U+1680,
  U+2000 to U+200A, U+2028, U+2029, U+202F, U+205F, U+3000 and U+FEFF.
\<close>

definition white_space :: "string list" where
  "white_space =
     [[CHR 0x09], [CHR 0x0A], [CHR 0x0B], [CHR 0x0C], [CHR 0x0D], [CHR 0x20],
      [CHR 0xC2, CHR 0xA0], [CHR 0xE1, CHR 0x9A, CHR 0x80],
      [CHR 0xE2, CHR 0x80, CHR 0x80], [CHR 0xE2, CHR 0x80, CHR 0x81],
      [CHR 0xE2, CHR 0x80, CHR 0x82], [CHR 0xE2, CHR 0x80, CHR 0x83],
      [CHR 0xE2, CHR 0x80, CHR 0x84], [CHR 0xE2, CHR 0x80, CHR 0x85],
      [CHR 0xE2, CHR 0x80, CHR 0x86], [CHR 0xE2, CHR 0x80, CHR 0x87],
      [CHR 0xE2, CHR 0x80, CHR 0x88], [CHR 0xE2, CHR 0x80, CHR 0x89],
      [CHR 0xE2, CHR 0x80, CHR 0x8A], [CHR 0xE2, CHR 0x80, CHR 0xA8],
      [CHR 0xE2, CHR 0x80, CHR 0xA9], [CHR 0xE2, CHR 0x80, CHR 0xAF],
      [CHR 0xE2, CHR 0x81, CHR 0x9F], [CHR 0xE3, CHR 0x80, CHR 0x80],
      [CHR 0xEF, CHR 0xBB, CHR 0xBF]]"

definition ws_len :: "string \<Rightarrow> nat" where
  "ws_len s = (case filter (\<lambda>w. prefix w s) white_space of [] \<Rightarrow> 0 | w # ws \<Rightarrow> length w)"

fun trim_start :: "string \<Rightarrow> string" where
  "trim_start [] = []"
| "trim_start (c # cs) =
     (if ws_len (c # cs) = 0 then c # cs else trim_start (drop (ws_len (c # cs) - 1) cs))"

text \<open>The value of a character as a digit: 0 to 9, then the letters, in either case.\<close>

definition digit_value :: "char \<Rightarrow> nat option" where
  "digit_value c =
     (let n = (of_char c :: nat) in
      if 48 \<le> n \<and> n \<le> 57 then Some (n - 48)
      else if 97 \<le> n \<and> n \<le> 122 then Some (n - 87)
      else if 65 \<le> n \<and> n \<le> 90 then Some (n - 55)
      else None)"

definition is_digit_in :: "nat \<Rightarrow> char \<Rightarrow> bool" where
  "is_digit_in R c = (case digit_value c of None \<Rightarrow> False | Some v \<Rightarrow> v < R)"

definition digits_value :: "nat \<Rightarrow> string \<Rightarrow> nat" where
  "digits_value R Z =
     foldl (\<lambda>acc c. acc * R + (case digit_value c of None \<Rightarrow> 0 | Some v \<Rightarrow> v)) 0 Z"

text \<open>
  \<^verbatim>\<open>parseInt(s)\<close> with no radix: skip the white space, take a sign, take a prefix
  \<^verbatim>\<open>0x\<close> or \<^verbatim>\<open>0X\<close> as the mark of radix 16, read the longest run of digits of the
  radix, and give \<^verbatim>\<open>NaN\<close> when the run is empty.
\<close>

definition parseInt :: "string \<Rightarrow> number" where
  "parseInt str =
     (let s = trim_start str;
          neg = prefix ''-'' s;
          s1 = (if prefix ''+'' s \<or> prefix ''-'' s then drop 1 s else s);
          hex = (prefix ''0x'' s1 \<or> prefix ''0X'' s1);
          s2 = (if hex then drop 2 s1 else s1);
          R = (if hex then 16 else 10);
          Z = takeWhile (is_digit_in R) s2
      in if Z = [] then NaN
         else Num ((if neg then - 1 else 1) * int (digits_value R Z)))"

text \<open>\<^verbatim>\<open>s.replace(/[^\d]/g, '')\<close> keeps the characters 0 to 9.\<close>

definition strip_non_digits :: "string \<Rightarrow> string" where
  "strip_non_digits s = filter (is_digit_in 10) s"

text \<open>The decimal text of a natural number, as \<^verbatim>\<open>'' + n\<close> gives it.\<close>

fun string_of_nat :: "nat \<Rightarrow> string" where
  "string_of_nat n =
     (if n < 10 then [char_of (48 + n)]
      else string_of_nat (n div 10) @ [char_of (48 + n mod 10)])"

section \<open>The request and the world of a handler\<close>

text \<open>
  \<^verbatim>\<open>req.query\<close> maps the keys of the query string to values. A key given once,
  plainly, has a string; a key that is repeated or carries brackets has an array or an
  object. Of such a value the handlers can see that it is truthy, that it is not a
  string and so has no method \<^verbatim>\<open>toLowerCase\<close>, and what its conversion to a string
  does. For an array of strings or an ordinary object the conversion gives a string, which
  \<open>QOther\<close> keeps. For an object that the parser built from a key such as
  \<^verbatim>\<open>locationName[toString]=x\<close>, whose own \<^verbatim>\<open>toString\<close> is a string and not a
  function, and for an array that holds such an object, the conversion throws a
  \<^verbatim>\<open>TypeError\<close>: that value is \<open>QOpaque\<close>.
\<close>

datatype qval = QStr string | QOther string | QOpaque

type_synonym query = "string \<rightharpoonup> qval"

datatype js_error = TypeError string

fun truthy :: "qval \<Rightarrow> bool" where
  "truthy (QStr s) = (s \<noteq> [])"
| "truthy (QOther s) = True"
| "truthy QOpaque = True"

fun is_string :: "qval \<Rightarrow> bool" where
  "is_string (QStr s) = True"
| "is_string (QOther s) = False"
| "is_string QOpaque = False"

text \<open>
  The conversion of a value to a string, as \<^verbatim>\<open>new URLSearchParams({...})\<close>,
  \<^verbatim>\<open>searchParams.append\<close> and \<^verbatim>\<open>parseInt\<close> apply it to their arguments.
\<close>

fun to_string :: "qval \<Rightarrow> js_error + string" where
  "to_string (QStr s) = Inr s"
| "to_string (QOther s) = Inr s"
| "to_string QOpaque = Inl (TypeError ''Cannot convert object to primitive value'')"

text \<open>
  A variable of the destructuring \<^verbatim>\<open>const { q = 'technik', ... } = req.query\<close>: the
  value of the key, or the default when the key is absent.
\<close>

definition param :: "query \<Rightarrow> string \<Rightarrow> string \<Rightarrow> qval" where
  "param rq k d = (case rq k of None \<Rightarrow> QStr d | Some v \<Rightarrow> v)"

text \<open>
  What a handler could read besides its request: the network (through
  \<^verbatim>\<open>makeRequest\<close>), the clock, and \<^verbatim>\<open>Math.random()\<close>, here as the integer
  \<^verbatim>\<open>Math.floor(Math.random() * 1000)\<close>. A handler reads the clock several times
  (\<^verbatim>\<open>new Date()\<close>, \<^verbatim>\<open>Date.now()\<close>); \<open>clock w k\<close> is what its reading number
  \<open>k\<close>, from 0, gives, in milliseconds.
\<close>

record world =
  net :: transport
  clock :: "nat \<Rightarrow> int"
  rand :: nat

text \<open>\<^verbatim>\<open>new Date(t).toISOString()\<close> is kept as the instant it renders.\<close>

datatype iso_date = ISO int

record item =
  id_str :: string
  title :: string
  price :: string
  location :: string
  url :: string
  postedDate :: iso_date
  images :: "string list"

definition mockResults :: "(nat \<Rightarrow> int) \<Rightarrow> item list" where
  "mockResults now =
     [\<lparr>id_str = ''1'', title = ''iPhone 13 Pro 128GB Space Gray'', price = euro @ '' 650'',
       location = ''Berlin Mitte'',
       url = ''https://www.ebay-kleinanzeigen.de/s-anzeige/iphone-13-pro/123456'',
       postedDate = ISO (now 0),
       images = [''https://i.ebayimg.com/images/g/placeholder.jpg'']\<rparr>,
      \<lparr>id_str = ''2'', title = ''Samsung Galaxy S23 Ultra 256GB'', price = euro @ '' 800'',
       location = ''Berlin Charlottenburg'',
       url = ''https://www.ebay-kleinanzeigen.de/s-anzeige/samsung-galaxy/123457'',
       postedDate = ISO (now 1 - 86400000),
       images = [''https://i.ebayimg.com/images/g/placeholder2.jpg'']\<rparr>,
      \<lparr>id_str = ''3'', title = ''MacBook Air M2 13'' @ [CHR 0x22] @ '' 256GB'',
       price = euro @ '' 1.200'',
       location = ''Berlin Prenzlauer Berg'',
       url = ''https://www.ebay-kleinanzeigen.de/s-anzeige/macbook-air/123458'',
       postedDate = ISO (now 2 - 172800000),
       images = [''https://i.ebayimg.com/images/g/placeholder3.jpg'']\<rparr>,
      \<lparr>id_str = ''4'', title = ''Nintendo Switch OLED + Spiele'', price = euro @ '' 280'',
       location = ''Berlin Kreuzberg'',
       url = ''https://www.ebay-kleinanzeigen.de/s-anzeige/nintendo-switch/123459'',
       postedDate = ISO (now 3 - 259200000),
       images = [''https://i.ebayimg.com/images/g/placeholder4.jpg'']\<rparr>,
      \<lparr>id_str = ''5'', title = ''Gaming PC RTX 4070 + AMD Ryzen 7'', price = euro @ '' 1.500'',
       location = ''Berlin Wedding'',
       url = ''https://www.ebay-kleinanzeigen.de/s-anzeige/gaming-pc/123460'',
       postedDate = ISO (now 4 - 345600000),
       images = [''https://i.ebayimg.com/images/g/placeholder5.jpg'']\<rparr>]"

section \<open>The handler of /search\<close>

text \<open>
  \<^verbatim>\<open>res.json\<close> sends the success body with status 200 and \<^verbatim>\<open>success: true\<close>;
  the \<^verbatim>\<open>catch\<close> block sends the failure body with status 500 and
  \<^verbatim>\<open>success: false\<close>. The constructor of the reply stands for both.
\<close>

record search_ok =
  count :: nat
  results :: "item list"
  query :: query
  note_str :: string

record failure =
  error :: string
  details :: string

datatype 'a reply = Ok200 'a | Error500 failure

text \<open>
  The search parameters of lines 79 to 93, as the list of their entries.
  \<^verbatim>\<open>new URLSearchParams({...})\<close> converts the values of its argument to strings in the
  order of the keys, so \<open>q\<close>, \<open>locationName\<close> and \<open>distance\<close> in turn, and the
  first conversion that throws ends the construction. \<^verbatim>\<open>sortBy\<close> is only compared
  with \<^verbatim>\<open>'PRICE_ASC'\<close>. A truthy \<^verbatim>\<open>priceMax\<close> is appended, converted the same way,
  and the category last.
\<close>

definition searchParams :: "query \<Rightarrow> js_error + (string \<times> string) list" where
  "searchParams rq =
     (case to_string (param rq ''q'' ''technik'') of
        Inl e \<Rightarrow> Inl e
      | Inr keywords \<Rightarrow>
     (case to_string (param rq ''locationName'' ''Berlin'') of
        Inl e \<Rightarrow> Inl e
      | Inr locationStr \<Rightarrow>
     (case to_string (param rq ''distance'' ''50'') of
        Inl e \<Rightarrow> Inl e
      | Inr radius \<Rightarrow>
          (let entries =
                 [(''keywords'', keywords), (''locationStr'', locationStr), (''radius'', radius),
                  (''sortingField'',
                     if param rq ''sortBy'' ''CREATION_DATE_DESC'' = QStr ''PRICE_ASC''
                     then ''PRICE'' else ''SORTING_DATE''),
                  (''adType'', ''OFFERED''), (''pageNum'', ''1'')]
           in case rq ''priceMax'' of
                None \<Rightarrow> Inr (entries @ [(''categoryId'', ''161'')])
              | Some pm \<Rightarrow>
                  if truthy pm then
                    (case to_string pm of
                       Inl e \<Rightarrow> Inl e
                     | Inr s \<Rightarrow> Inr (entries @ [(''priceMax'', s), (''categoryId'', ''161'')]))
                  else Inr (entries @ [(''categoryId'', ''161'')])))))"

text \<open>
  The first filter, \<^verbatim>\<open>if (priceMax) { ... }\<close>: it runs when \<^verbatim>\<open>priceMax\<close> is
  truthy, and keeps the items whose price, read from the digits of the price text, is at
  most \<^verbatim>\<open>parseInt(priceMax)\<close>. \<^verbatim>\<open>parseInt\<close> converts its argument to a string
  first.
\<close>

definition price_filter :: "qval option \<Rightarrow> item list \<Rightarrow> js_error + item list" where
  "price_filter priceMax mock =
     (case priceMax of
        None \<Rightarrow> Inr mock
      | Some pm \<Rightarrow>
          if truthy pm then
            (case to_string pm of
               Inl e \<Rightarrow> Inl e
             | Inr s \<Rightarrow>
                 (let maxPrice = parseInt s
                  in Inr (filter (\<lambda>item. js_le (parseInt (strip_non_digits (price item))) maxPrice)
                            mock)))
          else Inr mock)"

text \<open>
  The callback of the second \<^verbatim>\<open>filter\<close> evaluates
  \<^verbatim>\<open>item.title.toLowerCase().includes(q.toLowerCase())\<close>. On a \<open>q\<close> that is not a
  string, \<^verbatim>\<open>q.toLowerCase\<close> is not a function and the call throws a
  \<^verbatim>\<open>TypeError\<close>. \<^verbatim>\<open>Array.prototype.filter\<close> calls the callback on each element in
  turn and lets its exception through, so on the empty array nothing is thrown.
\<close>

definition title_matches :: "qval \<Rightarrow> item \<Rightarrow> js_error + bool" where
  "title_matches qv it =
     (case qv of
        QStr s \<Rightarrow> Inr (includes_str (toLowerCase (title it)) (toLowerCase s))
      | QOther s \<Rightarrow> Inl (TypeError ''q.toLowerCase is not a function'')
      | QOpaque \<Rightarrow> Inl (TypeError ''q.toLowerCase is not a function''))"

fun filter_try :: "('a \<Rightarrow> js_error + bool) \<Rightarrow> 'a list \<Rightarrow> js_error + 'a list" where
  "filter_try p [] = Inr []"
| "filter_try p (x # xs) =
     (case p x of
        Inl e \<Rightarrow> Inl e
      | Inr b \<Rightarrow>
          (case filter_try p xs of
             Inl e \<Rightarrow> Inl e
           | Inr ys \<Rightarrow> Inr (if b then x # ys else ys)))"

text \<open>
  The \<^verbatim>\<open>catch\<close> block: a line on the console after those written so far, and the
  failure body with the message of the error.
\<close>

definition search_failed :: "js_error \<Rightarrow> event list \<Rightarrow> search_ok reply \<times> event list" where
  "search_failed e logs =
     (case e of
        TypeError m \<Rightarrow>
          (Error500 \<lparr>error = ''Fehler beim Laden der Suchergebnisse'', details = m\<rparr>,
           logs @ [ConsoleError ''Search error:'']))"

text \<open>
  The handler, in the order of its statements: the first console line, the search
  parameters, the second console line with \<^verbatim>\<open>searchUrl\<close>, the mock listings, the
  two filters, the reply. Whatever is thrown on the way goes to the \<^verbatim>\<open>catch\<close> block.
  \<^verbatim>\<open>searchUrl\<close> is the text of the search parameters behind a fixed prefix; it is
  written to the console and not used again, and the console lines are kept as events
  without their text.
\<close>

definition search :: "world \<Rightarrow> query \<Rightarrow> search_ok reply \<times> event list" where
  "search w rq =
     (let q = param rq ''q'' ''technik'';
          priceMax = rq ''priceMax'';
          logs1 = [ConsoleLog ''Search parameters:'']
      in case searchParams rq of
           Inl e \<Rightarrow> search_failed e logs1
         | Inr params \<Rightarrow>
             (let logs2 = logs1 @ [ConsoleLog ''Searching URL:'']
              in case price_filter priceMax (mockResults (clock w)) of
                   Inl e \<Rightarrow> search_failed e logs2
                 | Inr filteredResults \<Rightarrow>
                     (case (if truthy q \<and> q \<noteq> QStr ''technik''
                            then filter_try (title_matches q) filteredResults
                            else Inr filteredResults) of
                        Inl e \<Rightarrow> search_failed e logs2
                      | Inr rs \<Rightarrow>
                          (Ok200 \<lparr>count = length rs, results = rs, query = rq,
                                  note_str =
                                    ''Mock-Daten - zeigt realistische Technik-Angebote''\<rparr>,
                           logs2))))"

text \<open>What a reply holds: the results of a success body, nothing on a failure body.\<close>

fun reply_results :: "search_ok reply \<Rightarrow> item list option" where
  "reply_results (Ok200 b) = Some (results b)"
| "reply_results (Error500 f) = None"

text \<open>
  The bound on prices as the handler tests it, \<^verbatim>\<open>price <= maxPrice\<close> with
  \<^verbatim>\<open>maxPrice = parseInt(priceMax)\<close>, on every item of a list.
\<close>

definition price_bounded :: "qval \<Rightarrow> item list \<Rightarrow> bool" where
  "price_bounded pm its =
     (case to_string pm of
        Inl e \<Rightarrow> False
      | Inr s \<Rightarrow>
          list_all (\<lambda>item. js_le (parseInt (strip_non_digits (price item))) (parseInt s)) its)"

text \<open>
  A request is plain when each of the four parameters the handler converts or calls a
  method on, \<open>q\<close>, \<open>locationName\<close>, \<open>distance\<close> and \<open>priceMax\<close>, is absent or
  a string.
\<close>

definition plain :: "query \<Rightarrow> bool" where
  "plain rq =
     list_all (\<lambda>k. case rq k of None \<Rightarrow> True | Some v \<Rightarrow> is_string v)
       [''q'', ''locationName'', ''distance'', ''priceMax'']"

section \<open>The handler of /ad/:id\<close>

record seller =
  name :: string
  type_str :: string

record ad_details = item +
  description :: string
  features :: "string list"
  seller :: seller

definition ad :: "world \<Rightarrow> string \<Rightarrow> ad_details reply \<times> event list" where
  "ad w ident =
     (Ok200
        \<lparr>id_str = ident,
         title = ''Detailansicht f'' @ ue @ ''r Anzeige #'' @ ident,
         price = euro @ '' '' @ string_of_nat (rand w + 100),
         location = ''Berlin'',
         url = ''https://www.ebay-kleinanzeigen.de/s-anzeige/detail/'' @ ident,
         postedDate = ISO (clock w 0),
         images = [''https://i.ebayimg.com/images/g/placeholder.jpg''],
         description =
           ''Dies ist eine Beispiel-Beschreibung f'' @ ue @ ''r die Anzeige. In der echten Version w''
           @ ue @ ''rden hier die tats'' @ ae @ ''chlichen Details der eBay Kleinanzeigen stehen. Das Ger''
           @ ae @ ''t ist in sehr gutem Zustand und wurde wenig genutzt.'',
         features = [''Sehr guter Zustand'', ''Originalverpackung'', ''Garantie'',
                     ''Versand m'' @ oe @ ''glich''],
         seller = \<lparr>name = ''TechnikVerk'' @ ae @ ''ufer123'', type_str = ''Privatperson''\<rparr>\<rparr>,
      [ConsoleLog ''Loading ad details for ID:''])"

section \<open>Transports and requests of the examples\<close>

definition always_timeout :: transport where
  "always_timeout u k = NetFail Timeout"

definition fails_twice_then_ok :: transport where
  "fails_twice_then_ok u k =
     (if k < 2 then NetFail ConnectionError else Http \<lparr>status = 200, data = ''<html>ok</html>''\<rparr>)"

definition busy_then_ok :: transport where
  "busy_then_ok u k =
     (if k = 0 then Http \<lparr>status = 503, data = ''busy''\<rparr>
      else Http \<lparr>status = 200, data = ''<html>ok</html>''\<rparr>)"

definition world0 :: world where
  "world0 = \<lparr>net = always_timeout, clock = (\<lambda>k. 1700000000000 + int k), rand = 42\<rparr>"

section \<open>Properties of makeRequest\<close>

subsection \<open>One turn of the loop\<close>

text \<open>
  The defining equation of the loop calls itself, so it is taken out of the simplifier's
  rules; the lemmas \<open>loop_exit\<close>, \<open>loop_resolve\<close>, \<open>loop_reject_last\<close> and
  \<open>loop_reject_step\<close> give one turn of the loop in each of its branches.
\<close>

declare makeRequest_loop.simps [simp del]

lemma axios_get_NetFail: "axios_get request_config (NetFail f) = Inl (NetworkError f)"
  by (simp add: axios_get_def)

lemma axios_get_Http:
  "axios_get request_config (Http r) =
     (if 200 \<le> status r \<and> status r < 300 then Inr r else Inl (BadStatus r))"
  by (simp add: axios_get_def request_config_def axios_default_validateStatus_def)

lemma loop_exit: "\<not> int i < retries \<Longrightarrow> makeRequest_loop tr u retries i = (Returned Undefined, [])"
  by (simp add: makeRequest_loop.simps)

lemma loop_resolve:
  "int i < retries \<Longrightarrow> axios_get request_config (tr u i) = Inr r \<Longrightarrow>
   makeRequest_loop tr u retries i =
     (Returned (Payload (data r)), [LogRequest u (i + 1), Get u request_config])"
  by (subst makeRequest_loop.simps) simp

lemma loop_reject_last:
  "int i = retries - 1 \<Longrightarrow> axios_get request_config (tr u i) = Inl e \<Longrightarrow>
   makeRequest_loop tr u retries i =
     (Thrown e, [LogRequest u (i + 1), Get u request_config, LogFailed (i + 1) e])"
  by (subst makeRequest_loop.simps) simp

lemma loop_reject_step:
  "int i < retries - 1 \<Longrightarrow> axios_get request_config (tr u i) = Inl e \<Longrightarrow>
   makeRequest_loop tr u retries i =
     (fst (makeRequest_loop tr u retries (i + 1)),
      [LogRequest u (i + 1), Get u request_config, LogFailed (i + 1) e, Sleep (1000 * (i + 1))]
        @ snd (makeRequest_loop tr u retries (i + 1)))"
  by (subst makeRequest_loop.simps) (simp split: prod.splits)

lemma attempts_simps [simp]:
  "attempts [] = 0"
  "attempts (Get u c # evs) = Suc (attempts evs)"
  "attempts (LogRequest u k # evs) = attempts evs"
  "attempts (LogFailed k e # evs) = attempts evs"
  "attempts (Sleep d # evs) = attempts evs"
  "attempts (ConsoleLog s # evs) = attempts evs"
  "attempts (ConsoleError s # evs) = attempts evs"
  by (simp_all add: attempts_def)

lemma loop_head:
  assumes "int i < retries"
  shows "\<exists>rest. snd (makeRequest_loop tr u retries i) = LogRequest u (i + 1) # Get u request_config # rest"
proof (cases "axios_get request_config (tr u i)")
  case (Inr r)
  with assms show ?thesis by (simp add: loop_resolve)
next
  case (Inl e)
  show ?thesis
  proof (cases "int i = retries - 1")
    case True
    with Inl show ?thesis by (simp add: loop_reject_last)
  next
    case False
    with assms have "int i < retries - 1" by simp
    then have "makeRequest_loop tr u retries i =
     (fst (makeRequest_loop tr u retries (i + 1)),
      [LogRequest u (i + 1), Get u request_config, LogFailed (i + 1) e, Sleep (1000 * (i + 1))]
        @ snd (makeRequest_loop tr u retries (i + 1)))"
      using Inl by (rule loop_reject_step)
    then show ?thesis by simp
  qed
qed

lemma loop_attempts_pos:
  assumes "int i < retries"
  shows "1 \<le> attempts (snd (makeRequest_loop tr u retries i))"
proof -
  from loop_head [OF assms] obtain rest where
    "snd (makeRequest_loop tr u retries i) = LogRequest u (i + 1) # Get u request_config # rest"
    by blast
  then show ?thesis by simp
qed

lemma loop_skip:
  "int k < retries \<Longrightarrow> i \<le> k \<Longrightarrow> \<forall>j. i \<le> j \<and> j < k \<longrightarrow> isl (axios_get request_config (tr u j)) \<Longrightarrow>
   fst (makeRequest_loop tr u retries i) = fst (makeRequest_loop tr u retries k) \<and>
   attempts (snd (makeRequest_loop tr u retries i)) = (k - i) + attempts (snd (makeRequest_loop tr u retries k)) \<and>
   delays (snd (makeRequest_loop tr u retries i)) = map (\<lambda>j. 1000 * (j + 1)) [i..<k] @ delays (snd (makeRequest_loop tr u retries k)) \<and>
   logged_errors (snd (makeRequest_loop tr u retries i)) =
      map (\<lambda>j. (j + 1, projl (axios_get request_config (tr u j)))) [i..<k] @ logged_errors (snd (makeRequest_loop tr u retries k))"
proof (induction "k - i" arbitrary: i)
  case 0
  then show ?case by simp
next
  case (Suc d)
  then have ik: "i < k" and d: "d = k - (i + 1)" and le: "i + 1 \<le> k" by auto
  from Suc.prems ik obtain e where e: "axios_get request_config (tr u i) = Inl e"
    by (metis isl_def le_refl)
  have step: "int i < retries - 1" using ik Suc.prems(1) by linarith
  have rest: "\<forall>j. i + 1 \<le> j \<and> j < k \<longrightarrow> isl (axios_get request_config (tr u j))"
    using Suc.prems(3) by auto
  note IH = Suc.hyps(1) [OF d Suc.prems(1) le rest]
  have up: "[i..<k] = i # [i + 1..<k]" using ik by (simp add: upt_conv_Cons)
  have unroll: "makeRequest_loop tr u retries i =
     (fst (makeRequest_loop tr u retries (i + 1)),
      [LogRequest u (i + 1), Get u request_config, LogFailed (i + 1) e, Sleep (1000 * (i + 1))]
        @ snd (makeRequest_loop tr u retries (i + 1)))"
    using step e by (rule loop_reject_step)
  show ?case
    using IH ik by (simp add: unroll up e)
qed

lemma loop_thrown:
  "fst (makeRequest_loop tr u retries i) = Thrown e \<Longrightarrow>
   int i < retries \<and> (\<forall>j. i \<le> j \<and> int j < retries \<longrightarrow> isl (axios_get request_config (tr u j))) \<and>
   axios_get request_config (tr u (nat retries - 1)) = Inl e"
proof (induction tr u retries i rule: makeRequest_loop.induct)
  case (1 tr u retries i)
  have lt: "int i < retries"
    using "1.prems" by (cases "int i < retries") (simp_all add: loop_exit)
  show ?case
  proof (cases "axios_get request_config (tr u i)")
    case (Inr r)
    with lt "1.prems" show ?thesis by (simp add: loop_resolve)
  next
    case (Inl err)
    show ?thesis
    proof (cases "int i = retries - 1")
      case True
      then have idx: "nat retries - 1 = i" by simp
      from True Inl "1.prems" have ee: "err = e" by (simp add: loop_reject_last)
      have "isl (axios_get request_config (tr u j))" if "i \<le> j" "int j < retries" for j
      proof -
        from that True have "j = i" by simp
        with Inl show ?thesis by simp
      qed
      moreover have "axios_get request_config (tr u (nat retries - 1)) = Inl e"
        using Inl ee idx by simp
      ultimately show ?thesis using lt by blast
    next
      case False
      with lt have step: "int i < retries - 1" by simp
      have unroll: "makeRequest_loop tr u retries i =
         (fst (makeRequest_loop tr u retries (i + 1)),
          [LogRequest u (i + 1), Get u request_config, LogFailed (i + 1) err, Sleep (1000 * (i + 1))]
            @ snd (makeRequest_loop tr u retries (i + 1)))"
        using step Inl by (rule loop_reject_step)
      with "1.prems" have "fst (makeRequest_loop tr u retries (i + 1)) = Thrown e" by simp
      from "1.IH" [OF lt Inl False this]
      have IH: "\<forall>j. i + 1 \<le> j \<and> int j < retries \<longrightarrow> isl (axios_get request_config (tr u j))"
        and last: "axios_get request_config (tr u (nat retries - 1)) = Inl e" by simp_all
      have "isl (axios_get request_config (tr u j))" if "i \<le> j" "int j < retries" for j
      proof (cases "j = i")
        case True
        with Inl show ?thesis by simp
      next
        case False
        with that IH show ?thesis by simp
      qed
      with lt last show ?thesis by blast
    qed
  qed
qed

lemma run_skip:
  assumes "int k < retries" and "\<forall>j<k. isl (axios_get request_config (tr u j))"
  shows "fst (makeRequest tr u retries) = fst (makeRequest_loop tr u retries k) \<and>
   attempts (snd (makeRequest tr u retries)) = k + attempts (snd (makeRequest_loop tr u retries k)) \<and>
   delays (snd (makeRequest tr u retries)) =
      map (\<lambda>j. 1000 * (j + 1)) [0..<k] @ delays (snd (makeRequest_loop tr u retries k)) \<and>
   logged_errors (snd (makeRequest tr u retries)) =
      map (\<lambda>j. (j + 1, projl (axios_get request_config (tr u j)))) [0..<k]
        @ logged_errors (snd (makeRequest_loop tr u retries k))"
proof -
  have pre: "\<forall>j. 0 \<le> j \<and> j < k \<longrightarrow> isl (axios_get request_config (tr u j))"
    using assms(2) by simp
  have "0 \<le> k" by simp
  with assms(1) have "fst (makeRequest_loop tr u retries 0) = fst (makeRequest_loop tr u retries k) \<and>
   attempts (snd (makeRequest_loop tr u retries 0)) = (k - 0) + attempts (snd (makeRequest_loop tr u retries k)) \<and>
   delays (snd (makeRequest_loop tr u retries 0)) = map (\<lambda>j. 1000 * (j + 1)) [0..<k] @ delays (snd (makeRequest_loop tr u retries k)) \<and>
   logged_errors (snd (makeRequest_loop tr u retries 0)) =
      map (\<lambda>j. (j + 1, projl (axios_get request_config (tr u j)))) [0..<k] @ logged_errors (snd (makeRequest_loop tr u retries k))"
    using pre by (rule loop_skip)
  then show ?thesis by (simp add: makeRequest_def)
qed

lemma loop_reject_more:
  assumes "int k < n - 1" and "axios_get request_config (tr u k) = Inl e"
  shows "2 \<le> attempts (snd (makeRequest_loop tr u n k)) \<and>
         (k + 1, e) \<in> set (logged_errors (snd (makeRequest_loop tr u n k)))"
proof -
  have unroll: "makeRequest_loop tr u n k =
     (fst (makeRequest_loop tr u n (k + 1)),
      [LogRequest u (k + 1), Get u request_config, LogFailed (k + 1) e, Sleep (1000 * (k + 1))]
        @ snd (makeRequest_loop tr u n (k + 1)))"
    using assms by (rule loop_reject_step)
  have "int (k + 1) < n" using assms(1) by simp
  from loop_attempts_pos [OF this, of tr u] unroll show ?thesis by simp
qed

lemma loop_delays:
  "delays (snd (makeRequest_loop tr u n i)) =
     map (\<lambda>j. 1000 * j) [i + 1..<i + attempts (snd (makeRequest_loop tr u n i))]"
proof (induction tr u n i rule: makeRequest_loop.induct)
  case (1 tr u n i)
  show ?case
  proof (cases "int i < n")
    case False
    then show ?thesis by (simp add: loop_exit)
  next
    case lt: True
    show ?thesis
    proof (cases "axios_get request_config (tr u i)")
      case (Inr r)
      with lt show ?thesis by (simp add: loop_resolve)
    next
      case (Inl err)
      show ?thesis
      proof (cases "int i = n - 1")
        case True
        with Inl show ?thesis by (simp add: loop_reject_last)
      next
        case False
        with lt have step: "int i < n - 1" by simp
        have unroll: "makeRequest_loop tr u n i =
           (fst (makeRequest_loop tr u n (i + 1)),
            [LogRequest u (i + 1), Get u request_config, LogFailed (i + 1) err, Sleep (1000 * (i + 1))]
              @ snd (makeRequest_loop tr u n (i + 1)))"
          using step Inl by (rule loop_reject_step)
        have "int (i + 1) < n" using step by simp
        from loop_attempts_pos [OF this, of tr u]
        have pos: "1 \<le> attempts (snd (makeRequest_loop tr u n (i + 1)))" .
        then have up: "[i + 1..<i + 1 + attempts (snd (makeRequest_loop tr u n (i + 1)))] =
            (i + 1) # [i + 1 + 1..<i + 1 + attempts (snd (makeRequest_loop tr u n (i + 1)))]"
          by (simp add: upt_conv_Cons)
        from "1.IH" [OF lt Inl False] up show ?thesis
          by (simp add: unroll)
      qed
    qed
  qed
qed

lemma loop_placed:
  "\<forall>prev. placed_from prev (snd (makeRequest_loop tr u n i))"
proof (induction tr u n i rule: makeRequest_loop.induct)
  case (1 tr u n i)
  show ?case
  proof (cases "int i < n")
    case False
    then show ?thesis by (simp add: loop_exit)
  next
    case lt: True
    show ?thesis
    proof (cases "axios_get request_config (tr u i)")
      case (Inr r)
      with lt show ?thesis by (simp add: loop_resolve)
    next
      case (Inl err)
      show ?thesis
      proof (cases "int i = n - 1")
        case True
        with Inl show ?thesis by (simp add: loop_reject_last)
      next
        case False
        with lt have step: "int i < n - 1" by simp
        have unroll: "makeRequest_loop tr u n i =
           (fst (makeRequest_loop tr u n (i + 1)),
            [LogRequest u (i + 1), Get u request_config, LogFailed (i + 1) err, Sleep (1000 * (i + 1))]
              @ snd (makeRequest_loop tr u n (i + 1)))"
          using step Inl by (rule loop_reject_step)
        have "int (i + 1) < n" using step by simp
        from loop_head [OF this, of tr u] obtain rest where
          hd: "snd (makeRequest_loop tr u n (i + 1)) = LogRequest u (i + 1 + 1) # Get u request_config # rest"
          by blast
        from "1.IH" [OF lt Inl False]
        have "placed_from (Some (Sleep (1000 * (i + 1)))) (snd (makeRequest_loop tr u n (i + 1)))"
          by blast
        with hd show ?thesis
          by (simp add: unroll)
      qed
    qed
  qed
qed

lemma sorted_scaled_upt: "sorted_wrt (<) (map (\<lambda>j. 1000 * j) [a..<b :: nat])"
  by (simp add: sorted_wrt_map sorted_wrt_mono_rel [OF _ sorted_wrt_upt])

subsection \<open>The claims about makeRequest\<close>

text \<open>
  C1, as amended. For every \<open>n \<ge> 1\<close>: when the transport fails with a transport error
  on each of the attempts 1 to \<open>n\<close>, \<^verbatim>\<open>makeRequest(url, n)\<close> issues exactly \<open>n\<close> GETs
  and ends by throwing the error of the \<open>n\<close>-th attempt, the very value the client
  rejected that attempt with (\<^verbatim>\<open>throw error\<close>); nothing wraps it.
\<close>

theorem makeRequest_exhausted:
  assumes "1 \<le> n" and "\<forall>i<n. tr u i = NetFail (f i)"
  shows "fst (makeRequest tr u (int n)) = Thrown (NetworkError (f (n - 1))) \<and>
         attempts (snd (makeRequest tr u (int n))) = n"
proof -
  have rej: "axios_get request_config (tr u i) = Inl (NetworkError (f i))" if "i < n" for i
    using that assms(2) by (simp add: axios_get_NetFail)
  have lt: "int (n - 1) < int n" using assms(1) by simp
  have pre: "\<forall>j<n - 1. isl (axios_get request_config (tr u j))"
    using rej by simp
  have last: "makeRequest_loop tr u (int n) (n - 1) =
      (Thrown (NetworkError (f (n - 1))),
       [LogRequest u (n - 1 + 1), Get u request_config, LogFailed (n - 1 + 1) (NetworkError (f (n - 1)))])"
  proof (rule loop_reject_last)
    show "int (n - 1) = int n - 1" using assms(1) by simp
    show "axios_get request_config (tr u (n - 1)) = Inl (NetworkError (f (n - 1)))"
      using assms(1) by (simp add: rej)
  qed
  from run_skip [of "n - 1" "int n" tr u, OF lt pre] last assms(1) show ?thesis
    by simp
qed

theorem makeRequest_exhausted_witness:
  "always_timeout ''https://example.test/down'' 0 = NetFail Timeout \<and>
   always_timeout ''https://example.test/down'' 1 = NetFail Timeout \<and>
   fst (makeRequest always_timeout ''https://example.test/down'' 2) = Thrown (NetworkError Timeout) \<and>
   attempts (snd (makeRequest always_timeout ''https://example.test/down'' 2)) = 2"
  using makeRequest_exhausted [of 2 always_timeout "''https://example.test/down''" "\<lambda>i. Timeout"]
  by (simp add: always_timeout_def)

text \<open>
  C1 as stated fails in the kind of the failure. With two attempts that both time out,
  what the call throws is the time-out error the client rejected attempt 2 with, a
  transport error as it was caught, and not an error of a further kind that holds it.
\<close>

theorem makeRequest_exhausted_counterexample:
  "axios_get request_config (always_timeout ''https://example.test/down'' 1)
     = Inl (NetworkError Timeout) \<and>
   makeRequest always_timeout ''https://example.test/down'' 2 =
     (Thrown (NetworkError Timeout),
      [LogRequest ''https://example.test/down'' 1,
       Get ''https://example.test/down'' request_config,
       LogFailed 1 (NetworkError Timeout), Sleep 1000,
       LogRequest ''https://example.test/down'' 2,
       Get ''https://example.test/down'' request_config,
       LogFailed 2 (NetworkError Timeout)])"
  by (simp add: makeRequest_def makeRequest_loop.simps always_timeout_def axios_get_NetFail)

text \<open>
  C2, as amended. \<^verbatim>\<open>makeRequest\<close> checks neither of its arguments. With
  \<open>retries \<le> 0\<close> it issues no GET and ends at once, for every target, but it does not
  fail: it resolves with \<^verbatim>\<open>undefined\<close>. With \<open>retries \<ge> 1\<close> its first steps are the
  console line of attempt 1 and the GET of the target as it was given, whatever the
  target is.
\<close>

theorem makeRequest_no_validation:
  "(retries \<le> 0 \<longrightarrow> makeRequest tr u retries = (Returned Undefined, [])) \<and>
   (1 \<le> retries \<longrightarrow>
      (\<exists>rest. snd (makeRequest tr u retries) = LogRequest u 1 # Get u request_config # rest))"
proof (intro conjI impI)
  assume "retries \<le> 0"
  then show "makeRequest tr u retries = (Returned Undefined, [])"
    by (simp add: makeRequest_def loop_exit)
next
  assume "1 \<le> retries"
  then have "int 0 < retries" by simp
  from loop_head [OF this, of tr u]
  show "\<exists>rest. snd (makeRequest tr u retries) = LogRequest u 1 # Get u request_config # rest"
    by (simp add: makeRequest_def)
qed

theorem makeRequest_no_validation_witness:
  "makeRequest always_timeout ''not a url'' (- 2) = (Returned Undefined, []) \<and>
   (\<exists>rest. snd (makeRequest always_timeout ''not a url'' 2)
      = LogRequest ''not a url'' 1 # Get ''not a url'' request_config # rest)"
  using makeRequest_no_validation [of "- 2" always_timeout "''not a url''"]
    makeRequest_no_validation [of 2 always_timeout "''not a url''"]
  by simp

text \<open>
  C2 as stated fails: with 0 or \<open>- 1\<close> attempts the call resolves with
  \<^verbatim>\<open>undefined\<close> where the claim has it fail, and a target that is no locator is handed
  to the client on attempt 1.
\<close>

theorem makeRequest_no_validation_counterexample:
  "makeRequest always_timeout ''not a url'' 0 = (Returned Undefined, []) \<and>
   makeRequest always_timeout ''https://example.test/down'' (- 1) = (Returned Undefined, []) \<and>
   take 2 (snd (makeRequest always_timeout ''not a url'' 1))
     = [LogRequest ''not a url'' 1, Get ''not a url'' request_config]"
  by (simp add: makeRequest_def makeRequest_loop.simps always_timeout_def axios_get_NetFail)

text \<open>
  C3, as amended. Let the attempts before attempt \<open>k + 1\<close> have been rejected by the
  client. If the transport then yields a response with a status from 200 to 299,
  \<^verbatim>\<open>makeRequest\<close> returns its payload at once, after \<open>k + 1\<close> GETs. If it yields a
  response with any other status, or a transport failure, the attempt counts as failed:
  on the last attempt the error is thrown, and before the last attempt the error is written
  to the console and a further GET follows.
\<close>

theorem makeRequest_retry_rule:
  assumes "int k < n" and "\<forall>j<k. isl (axios_get request_config (tr u j))"
  shows "case tr u k of
           Http r \<Rightarrow>
             if 200 \<le> status r \<and> status r < 300 then
               fst (makeRequest tr u n) = Returned (Payload (data r)) \<and>
               attempts (snd (makeRequest tr u n)) = k + 1
             else if int k = n - 1 then
               fst (makeRequest tr u n) = Thrown (BadStatus r) \<and>
               attempts (snd (makeRequest tr u n)) = k + 1
             else
               k + 2 \<le> attempts (snd (makeRequest tr u n)) \<and>
               (k + 1, BadStatus r) \<in> set (logged_errors (snd (makeRequest tr u n)))
         | NetFail f \<Rightarrow>
             if int k = n - 1 then
               fst (makeRequest tr u n) = Thrown (NetworkError f) \<and>
               attempts (snd (makeRequest tr u n)) = k + 1
             else
               k + 2 \<le> attempts (snd (makeRequest tr u n)) \<and>
               (k + 1, NetworkError f) \<in> set (logged_errors (snd (makeRequest tr u n)))"
proof -
  note skip = run_skip [of k n tr u, OF assms]
  have rejected: "if int k = n - 1 then
               fst (makeRequest tr u n) = Thrown e \<and>
               attempts (snd (makeRequest tr u n)) = k + 1
             else
               k + 2 \<le> attempts (snd (makeRequest tr u n)) \<and>
               (k + 1, e) \<in> set (logged_errors (snd (makeRequest tr u n)))"
    if e: "axios_get request_config (tr u k) = Inl e" for e
  proof (cases "int k = n - 1")
    case True
    then have "makeRequest_loop tr u n k =
      (Thrown e, [LogRequest u (k + 1), Get u request_config, LogFailed (k + 1) e])"
      using e by (rule loop_reject_last)
    with skip True show ?thesis by simp
  next
    case False
    with assms(1) have "int k < n - 1" by simp
    from loop_reject_more [of k n tr u e, OF this e] skip False show ?thesis by simp
  qed
  show ?thesis
  proof (cases "tr u k")
    case (NetFail f)
    then have "axios_get request_config (tr u k) = Inl (NetworkError f)"
      by (simp add: axios_get_NetFail)
    from rejected [OF this] NetFail show ?thesis
      by (cases "int k = n - 1") auto
  next
    case (Http r)
    show ?thesis
    proof (cases "200 \<le> status r \<and> status r < 300")
      case True
      with Http have "axios_get request_config (tr u k) = Inr r"
        by (simp add: axios_get_Http)
      with assms(1) have "makeRequest_loop tr u n k =
        (Returned (Payload (data r)), [LogRequest u (k + 1), Get u request_config])"
        by (rule loop_resolve)
      with skip Http True show ?thesis by simp
    next
      case False
      with Http have "axios_get request_config (tr u k) = Inl (BadStatus r)"
        by (simp add: axios_get_Http)
      from rejected [OF this] Http False show ?thesis
        by (cases "int k = n - 1") auto
    qed
  qed
qed

theorem makeRequest_retry_rule_witness:
  "fst (makeRequest busy_then_ok ''https://example.test/busy'' 3)
     = Returned (Payload ''<html>ok</html>'') \<and>
   attempts (snd (makeRequest busy_then_ok ''https://example.test/busy'' 3)) = 2 \<and>
   (1, BadStatus \<lparr>status = 503, data = ''busy''\<rparr>)
     \<in> set (logged_errors (snd (makeRequest busy_then_ok ''https://example.test/busy'' 3))) \<and>
   fst (makeRequest busy_then_ok ''https://example.test/busy'' 1)
     = Thrown (BadStatus \<lparr>status = 503, data = ''busy''\<rparr>) \<and>
   fst (makeRequest always_timeout ''https://example.test/down'' 1) = Thrown (NetworkError Timeout) \<and>
   2 \<le> attempts (snd (makeRequest always_timeout ''https://example.test/down'' 2)) \<and>
   (1, NetworkError Timeout)
     \<in> set (logged_errors (snd (makeRequest always_timeout ''https://example.test/down'' 2)))"
proof -
  have pre: "\<forall>j<1. isl (axios_get request_config (busy_then_ok ''https://example.test/busy'' j))"
    by (simp add: busy_then_ok_def axios_get_Http)
  show ?thesis
    using makeRequest_retry_rule [of 1 3 busy_then_ok "''https://example.test/busy''", OF _ pre]
      makeRequest_retry_rule [of 0 3 busy_then_ok "''https://example.test/busy''"]
      makeRequest_retry_rule [of 0 1 busy_then_ok "''https://example.test/busy''"]
      makeRequest_retry_rule [of 0 1 always_timeout "''https://example.test/down''"]
      makeRequest_retry_rule [of 0 2 always_timeout "''https://example.test/down''"]
    by (simp add: busy_then_ok_def always_timeout_def)
qed

text \<open>
  C3 as stated fails: a response with status 503 on attempt 1 is not returned; the
  call waits 1000 ms, issues a second GET and returns the payload of that one.
\<close>

theorem retry_on_status_counterexample:
  "busy_then_ok ''https://example.test/busy'' 0 = Http \<lparr>status = 503, data = ''busy''\<rparr> \<and>
   fst (makeRequest busy_then_ok ''https://example.test/busy'' 2)
     = Returned (Payload ''<html>ok</html>'') \<and>
   fst (makeRequest busy_then_ok ''https://example.test/busy'' 2) \<noteq> Returned (Payload ''busy'') \<and>
   attempts (snd (makeRequest busy_then_ok ''https://example.test/busy'' 2)) = 2 \<and>
   delays (snd (makeRequest busy_then_ok ''https://example.test/busy'' 2)) = [1000]"
  by (simp add: makeRequest_def makeRequest_loop.simps busy_then_ok_def axios_get_Http)

text \<open>
  C4, as amended. If the attempts 1 to \<open>k - 1\<close> are rejected by the client and on
  attempt \<open>k\<close> the transport yields a response with a status from 200 to 299, with
  \<open>k\<close> at most the number \<open>n\<close> of attempts allowed, then \<^verbatim>\<open>makeRequest\<close> issues
  exactly \<open>k\<close> GETs, so none of the attempts \<open>k + 1\<close> to \<open>n\<close> takes place, and it
  returns the payload of attempt \<open>k\<close>.
\<close>

theorem makeRequest_first_success:
  assumes "1 \<le> k" and "int k \<le> n"
    and "\<forall>j<k - 1. isl (axios_get request_config (tr u j))"
    and "tr u (k - 1) = Http r" and "200 \<le> status r" and "status r < 300"
  shows "fst (makeRequest tr u n) = Returned (Payload (data r)) \<and>
         attempts (snd (makeRequest tr u n)) = k"
proof -
  have lt: "int (k - 1) < n" using assms(1,2) by simp
  have res: "axios_get request_config (tr u (k - 1)) = Inr r"
    using assms(4,5,6) by (simp add: axios_get_Http)
  have "makeRequest_loop tr u n (k - 1) =
      (Returned (Payload (data r)), [LogRequest u (k - 1 + 1), Get u request_config])"
    using lt res by (rule loop_resolve)
  with run_skip [of "k - 1" n tr u, OF lt assms(3)] assms(1) show ?thesis
    by simp
qed

theorem makeRequest_first_success_witness:
  "isl (axios_get request_config (fails_twice_then_ok ''https://example.test/ok'' 0)) \<and>
   isl (axios_get request_config (fails_twice_then_ok ''https://example.test/ok'' 1)) \<and>
   fails_twice_then_ok ''https://example.test/ok'' 2
     = Http \<lparr>status = 200, data = ''<html>ok</html>''\<rparr> \<and>
   fst (makeRequest fails_twice_then_ok ''https://example.test/ok'' 5)
     = Returned (Payload ''<html>ok</html>'') \<and>
   attempts (snd (makeRequest fails_twice_then_ok ''https://example.test/ok'' 5)) = 3"
proof -
  have f: "\<forall>j<3 - 1. isl (axios_get request_config (fails_twice_then_ok ''https://example.test/ok'' j))"
    by (simp add: fails_twice_then_ok_def axios_get_NetFail)
  have s: "fails_twice_then_ok ''https://example.test/ok'' (3 - 1)
             = Http \<lparr>status = 200, data = ''<html>ok</html>''\<rparr>"
    by (simp add: fails_twice_then_ok_def)
  from makeRequest_first_success [of 3 5 fails_twice_then_ok "''https://example.test/ok''"
      "\<lparr>status = 200, data = ''<html>ok</html>''\<rparr>", OF _ _ f s] f s show ?thesis
    by simp
qed

text \<open>
  C4 as stated fails when the success of an attempt is a response of any status, as the
  specification has it. With three attempts allowed and a response of status 503 on
  attempt 1, attempt 2 does take place, after 1000 ms, and the value returned is the
  payload of attempt 2, not that of attempt 1.
\<close>

theorem makeRequest_first_success_counterexample:
  "busy_then_ok ''https://example.test/search'' 0 = Http \<lparr>status = 503, data = ''busy''\<rparr> \<and>
   makeRequest busy_then_ok ''https://example.test/search'' 3 =
     (Returned (Payload ''<html>ok</html>''),
      [LogRequest ''https://example.test/search'' 1,
       Get ''https://example.test/search'' request_config,
       LogFailed 1 (BadStatus \<lparr>status = 503, data = ''busy''\<rparr>), Sleep 1000,
       LogRequest ''https://example.test/search'' 2,
       Get ''https://example.test/search'' request_config]) \<and>
   attempts (snd (makeRequest busy_then_ok ''https://example.test/search'' 3)) = 2"
  by (simp add: makeRequest_def makeRequest_loop.simps busy_then_ok_def axios_get_Http)

text \<open>
  C5. In every run the suspensions are, in order, 1000 ms, 2000 ms, and so on, one
  fewer than the GETs issued: the \<open>i\<close>-th is \<open>1000 * i\<close>. Each stands directly after the
  console line that reports the failure of attempt \<open>i\<close> and directly before the line that
  announces attempt \<open>i + 1\<close>. The sequence is strictly increasing, and every suspension is
  at least 1000 ms, so not negative.
\<close>

theorem backoff_linear:
  "delays (snd (makeRequest tr u n))
     = map (\<lambda>i. 1000 * i) [1..<attempts (snd (makeRequest tr u n))] \<and>
   backoff_placed (snd (makeRequest tr u n)) \<and>
   sorted_wrt (<) (delays (snd (makeRequest tr u n))) \<and>
   (\<forall>d \<in> set (delays (snd (makeRequest tr u n))). 0 \<le> d \<and> 1000 \<le> d)"
proof -
  have d: "delays (snd (makeRequest tr u n))
     = map (\<lambda>i. 1000 * i) [1..<attempts (snd (makeRequest tr u n))]"
    using loop_delays [of tr u n 0] by (simp add: makeRequest_def)
  have p: "backoff_placed (snd (makeRequest tr u n))"
    using loop_placed [of tr u n 0] by (simp add: makeRequest_def backoff_placed_def)
  have s: "sorted_wrt (<) (delays (snd (makeRequest tr u n)))"
    unfolding d by (rule sorted_scaled_upt)
  have "\<forall>d \<in> set (delays (snd (makeRequest tr u n))). 0 \<le> d \<and> 1000 \<le> d"
    unfolding d by auto
  with d p s show ?thesis by blast
qed

theorem backoff_linear_witness:
  "attempts (snd (makeRequest fails_twice_then_ok ''https://example.test/ok'' 3)) = 3 \<and>
   delays (snd (makeRequest fails_twice_then_ok ''https://example.test/ok'' 3)) = [1000, 2000] \<and>
   backoff_placed (snd (makeRequest fails_twice_then_ok ''https://example.test/ok'' 3)) \<and>
   sorted_wrt (<) (delays (snd (makeRequest fails_twice_then_ok ''https://example.test/ok'' 3)))"
proof -
  have a: "attempts (snd (makeRequest fails_twice_then_ok ''https://example.test/ok'' 3)) = 3"
    by (simp add: makeRequest_def makeRequest_loop.simps fails_twice_then_ok_def
        axios_get_NetFail axios_get_Http)
  have u: "[1..<3] = [1, 2 :: nat]"
    by (simp add: upt_conv_Cons)
  from backoff_linear [of fails_twice_then_ok "''https://example.test/ok''" 3] a u
  show ?thesis by simp
qed

text \<open>
  C6. When a call fails, there were \<open>n \<ge> 1\<close> attempts allowed, all \<open>n\<close> were made and
  rejected, and the one error the call throws is that of attempt \<open>n\<close>. The errors of all
  attempts, the earlier ones among them, were written to the console in order; the
  completion of the call holds none of them but the last.
\<close>

theorem only_last_error_surfaces:
  assumes "fst (makeRequest tr u n) = Thrown e"
  shows "1 \<le> n \<and>
         (\<forall>j<nat n. isl (axios_get request_config (tr u j))) \<and>
         axios_get request_config (tr u (nat n - 1)) = Inl e \<and>
         attempts (snd (makeRequest tr u n)) = nat n \<and>
         logged_errors (snd (makeRequest tr u n))
           = map (\<lambda>j. (j + 1, projl (axios_get request_config (tr u j)))) [0..<nat n]"
proof -
  from assms have thr: "fst (makeRequest_loop tr u n 0) = Thrown e"
    by (simp add: makeRequest_def)
  from loop_thrown [OF thr]
  have pos: "0 < n"
    and all: "\<forall>j. int j < n \<longrightarrow> isl (axios_get request_config (tr u j))"
    and last: "axios_get request_config (tr u (nat n - 1)) = Inl e"
    by simp_all
  have lt: "int (nat n - 1) < n" using pos by simp
  have pre: "\<forall>j<nat n - 1. isl (axios_get request_config (tr u j))"
    using all by simp
  have idx: "int (nat n - 1) = n - 1" using pos by simp
  have fin: "makeRequest_loop tr u n (nat n - 1) =
     (Thrown e, [LogRequest u (nat n - 1 + 1), Get u request_config, LogFailed (nat n - 1 + 1) e])"
    using idx last by (rule loop_reject_last)
  have up: "[0..<nat n] = [0..<nat n - 1] @ [nat n - 1]"
    using pos by (metis Suc_diff_1 upt_Suc_append zero_le zero_less_nat_eq)
  have suc: "Suc (nat n - 1) = nat n" using pos by simp
  from run_skip [of "nat n - 1" n tr u, OF lt pre] fin last pos all
  show ?thesis
    by (simp add: up suc)
qed

theorem only_last_error_surfaces_witness:
  "fst (makeRequest always_timeout ''https://example.test/down'' 2) = Thrown (NetworkError Timeout) \<and>
   attempts (snd (makeRequest always_timeout ''https://example.test/down'' 2)) = 2 \<and>
   logged_errors (snd (makeRequest always_timeout ''https://example.test/down'' 2))
     = [(1, NetworkError Timeout), (2, NetworkError Timeout)]"
proof -
  have t: "fst (makeRequest always_timeout ''https://example.test/down'' 2) = Thrown (NetworkError Timeout)"
    by (simp add: makeRequest_def makeRequest_loop.simps always_timeout_def axios_get_NetFail)
  have u: "[0..<2] = [0, 1 :: nat]"
    by (simp add: upt_conv_Cons)
  from only_last_error_surfaces [OF t] t show ?thesis
    by (simp add: u always_timeout_def axios_get_NetFail)
qed

text \<open>
  C8. With \<open>retries \<le> 0\<close> the loop body never runs: the call resolves with
  \<^verbatim>\<open>undefined\<close> and the list of its events is empty, so there is no GET, no
  suspension and no error.
\<close>

theorem makeRequest_nonpositive:
  "retries \<le> 0 \<Longrightarrow> makeRequest tr u retries = (Returned Undefined, [])"
  by (simp add: makeRequest_def loop_exit)

theorem makeRequest_nonpositive_witness:
  "makeRequest always_timeout ''https://example.test/down'' 0 = (Returned Undefined, []) \<and>
   makeRequest fails_twice_then_ok ''https://example.test/ok'' (- 3) = (Returned Undefined, [])"
  using makeRequest_nonpositive [of 0 always_timeout "''https://example.test/down''"]
    makeRequest_nonpositive [of "- 3" fails_twice_then_ok "''https://example.test/ok''"]
  by simp

section \<open>Properties of the handlers\<close>

subsection \<open>The two filters, the conversions and the mock listings\<close>

lemma filter_try_QStr:
  "filter_try (title_matches (QStr s)) xs =
     Inr (filter (\<lambda>it. includes_str (toLowerCase (title it)) (toLowerCase s)) xs)"
  by (induction xs) (simp_all add: title_matches_def)

lemma filter_try_not_string:
  "\<not> is_string v \<Longrightarrow>
   filter_try (title_matches v) xs =
     (if xs = [] then Inr [] else Inl (TypeError ''q.toLowerCase is not a function''))"
  by (cases v; cases xs) (simp_all add: title_matches_def)

lemma filter_try_subseq: "filter_try p xs = Inr ys \<Longrightarrow> subseq ys xs"
proof (induction xs arbitrary: ys)
  case Nil
  then show ?case by simp
next
  case (Cons x xs)
  then show ?case
    by (auto split: sum.splits if_splits)
qed

lemma price_filter_subseq: "price_filter pm mock = Inr fs \<Longrightarrow> subseq fs mock"
  by (auto simp add: price_filter_def Let_def split: option.splits if_splits sum.splits)

lemma price_filter_bounded:
  "price_filter (Some pm) mock = Inr fs \<Longrightarrow> truthy pm \<Longrightarrow> price_bounded pm fs"
  by (auto simp add: price_filter_def price_bounded_def Let_def list_all_iff split: sum.splits)

lemma price_bounded_subseq:
  assumes "price_bounded pm xs" and "subseq ys xs"
  shows "price_bounded pm ys"
proof -
  have "x \<in> set xs" if "x \<in> set ys" for x
    using list_emb_set [OF assms(2) that] by blast
  with assms(1) show ?thesis
    by (auto simp add: price_bounded_def list_all_iff split: sum.splits)
qed

text \<open>On a plain request no conversion throws.\<close>

lemma to_string_is_string: "is_string v \<Longrightarrow> \<exists>s. v = QStr s \<and> to_string v = Inr s"
  by (cases v) simp_all

lemma plain_keys:
  assumes "plain rq"
  shows "is_string (param rq ''q'' d1)" and "is_string (param rq ''locationName'' d2)"
    and "is_string (param rq ''distance'' d3)"
    and "rq ''priceMax'' = None \<or> (\<exists>s. rq ''priceMax'' = Some (QStr s))"
  using assms
  by (auto simp add: plain_def param_def split: option.splits dest: to_string_is_string)

lemma plain_searchParams:
  assumes "plain rq"
  shows "\<exists>sp. searchParams rq = Inr sp"
proof -
  from plain_keys(1) [OF assms] to_string_is_string
  obtain s1 where 1: "to_string (param rq ''q'' ''technik'') = Inr s1" by blast
  from plain_keys(2) [OF assms] to_string_is_string
  obtain s2 where 2: "to_string (param rq ''locationName'' ''Berlin'') = Inr s2" by blast
  from plain_keys(3) [OF assms] to_string_is_string
  obtain s3 where 3: "to_string (param rq ''distance'' ''50'') = Inr s3" by blast
  from plain_keys(4) [OF assms] show ?thesis
    by (auto simp add: searchParams_def 1 2 3 Let_def)
qed

lemma plain_price_filter:
  assumes "plain rq"
  shows "\<exists>fs. price_filter (rq ''priceMax'') mock = Inr fs"
  using plain_keys(4) [OF assms]
  by (auto simp add: price_filter_def Let_def)

text \<open>The reply of the handler, stage by stage.\<close>

lemma search_results:
  "reply_results (fst (search w rq)) =
     (case searchParams rq of
        Inl e \<Rightarrow> None
      | Inr sp \<Rightarrow>
          (case price_filter (rq ''priceMax'') (mockResults (clock w)) of
             Inl e \<Rightarrow> None
           | Inr fs \<Rightarrow>
               (case (if truthy (param rq ''q'' ''technik'') \<and> param rq ''q'' ''technik'' \<noteq> QStr ''technik''
                      then filter_try (title_matches (param rq ''q'' ''technik'')) fs
                      else Inr fs) of
                  Inl e \<Rightarrow> None
                | Inr rs \<Rightarrow> Some rs)))"
  by (simp add: search_def search_failed_def Let_def split: sum.splits js_error.splits)

lemma search_count:
  "fst (search w rq) = Ok200 b \<Longrightarrow> count b = length (results b)"
  by (auto simp add: search_def search_failed_def Let_def split: sum.splits js_error.splits if_splits)

lemma search_events:
  "attempts (snd (search w rq)) = 0 \<and> delays (snd (search w rq)) = []"
  by (simp add: search_def search_failed_def Let_def split: sum.splits js_error.splits)

lemma search_plain:
  assumes "plain rq"
  shows "\<exists>rs. reply_results (fst (search w rq)) = Some rs"
proof -
  from plain_searchParams [OF assms] obtain sp where sp: "searchParams rq = Inr sp" by blast
  from plain_price_filter [OF assms] obtain fs where
    fs: "price_filter (rq ''priceMax'') (mockResults (clock w)) = Inr fs" by blast
  from plain_keys(1) [OF assms] to_string_is_string obtain s where
    q: "param rq ''q'' ''technik'' = QStr s" by blast
  show ?thesis
    by (simp add: search_results sp fs q filter_try_QStr)
qed

lemma mock_titles:
  "map title (mockResults now) =
     [''iPhone 13 Pro 128GB Space Gray'', ''Samsung Galaxy S23 Ultra 256GB'',
      ''MacBook Air M2 13'' @ [CHR 0x22] @ '' 256GB'', ''Nintendo Switch OLED + Spiele'',
      ''Gaming PC RTX 4070 + AMD Ryzen 7'']"
  by (simp add: mockResults_def)

lemma mock_ids: "map id_str (mockResults now) = [''1'', ''2'', ''3'', ''4'', ''5'']"
  by (simp add: mockResults_def)

lemma no_title_has_technik:
  "list_all (\<lambda>t. \<not> includes_str (toLowerCase t) (toLowerCase ''technik''))
     [''iPhone 13 Pro 128GB Space Gray'', ''Samsung Galaxy S23 Ultra 256GB'',
      ''MacBook Air M2 13'' @ [CHR 0x22] @ '' 256GB'', ''Nintendo Switch OLED + Spiele'',
      ''Gaming PC RTX 4070 + AMD Ryzen 7'']"
  by code_simp

lemma gb_titles:
  "filter (\<lambda>t. includes_str (toLowerCase t) (toLowerCase ''GB''))
     [''iPhone 13 Pro 128GB Space Gray'', ''Samsung Galaxy S23 Ultra 256GB'',
      ''MacBook Air M2 13'' @ [CHR 0x22] @ '' 256GB'', ''Nintendo Switch OLED + Spiele'',
      ''Gaming PC RTX 4070 + AMD Ryzen 7'']
   = [''iPhone 13 Pro 128GB Space Gray'', ''Samsung Galaxy S23 Ultra 256GB'',
      ''MacBook Air M2 13'' @ [CHR 0x22] @ '' 256GB'']"
  by code_simp

lemma price_filter_700:
  "map id_str (filter (\<lambda>it. includes_str (toLowerCase (title it)) (toLowerCase ''iphone''))
      (filter (\<lambda>item. js_le (parseInt (strip_non_digits (price item))) (parseInt ''700''))
         (mockResults (clock world0)))) = [''1'']"
  by code_simp

subsection \<open>The claims about the handlers\<close>

text \<open>
  C7. Neither handler reads the network. Two worlds with the same clock and the same
  random number, whatever their transports, give the same reply and the same events for
  every request to /search and to /ad/:id, and the events of a handler hold no GET and no
  suspension: \<^verbatim>\<open>makeRequest\<close> is not called.
\<close>

theorem handlers_ignore_transport:
  assumes "clock w1 = clock w2" and "rand w1 = rand w2"
  shows "search w1 rq = search w2 rq \<and> ad w1 ident = ad w2 ident \<and>
         attempts (snd (search w1 rq)) = 0 \<and> attempts (snd (ad w1 ident)) = 0 \<and>
         delays (snd (search w1 rq)) = [] \<and> delays (snd (ad w1 ident)) = []"
proof -
  have s: "search w1 rq = search w2 rq"
    unfolding search_def assms(1) by (rule refl)
  have a: "ad w1 ident = ad w2 ident"
    using assms by (simp add: ad_def)
  have "attempts (snd (ad w1 ident)) = 0 \<and> delays (snd (ad w1 ident)) = []"
    by (simp add: ad_def)
  with search_events [of w1 rq] show ?thesis using s a by simp
qed

theorem handlers_ignore_transport_witness:
  "search world0 [''q'' \<mapsto> QStr ''iphone''] = search (world0\<lparr>net := fails_twice_then_ok\<rparr>) [''q'' \<mapsto> QStr ''iphone''] \<and>
   ad world0 ''123456'' = ad (world0\<lparr>net := fails_twice_then_ok\<rparr>) ''123456'' \<and>
   net world0 ''https://www.ebay-kleinanzeigen.de'' 0 \<noteq> net (world0\<lparr>net := fails_twice_then_ok\<rparr>) ''https://www.ebay-kleinanzeigen.de'' 2 \<and>
   attempts (snd (search world0 [''q'' \<mapsto> QStr ''iphone''])) = 0 \<and>
   attempts (snd (ad world0 ''123456'')) = 0"
proof -
  have c: "clock world0 = clock (world0\<lparr>net := fails_twice_then_ok\<rparr>)"
    and r: "rand world0 = rand (world0\<lparr>net := fails_twice_then_ok\<rparr>)"
    by simp_all
  have d: "net world0 ''https://www.ebay-kleinanzeigen.de'' 0
             \<noteq> net (world0\<lparr>net := fails_twice_then_ok\<rparr>) ''https://www.ebay-kleinanzeigen.de'' 2"
    by (simp add: world0_def always_timeout_def fails_twice_then_ok_def)
  from handlers_ignore_transport [OF c r, of "[''q'' \<mapsto> QStr ''iphone'']" "''123456''"] d
  show ?thesis by blast
qed

text \<open>
  C9, as amended. In every success body of /search, \<open>count\<close> is the length of
  \<open>results\<close>, \<open>results\<close> is a sub-list of the five mock listings, and when
  \<open>priceMax\<close> is given and truthy (not the empty string), every item returned passes the
  handler's test \<^verbatim>\<open>price <= parseInt(priceMax)\<close>. The failure body of the
  \<^verbatim>\<open>catch\<close> block comes only on a request that is not plain: when \<open>q\<close>,
  \<open>locationName\<close>, \<open>distance\<close> and \<open>priceMax\<close> are each absent or a string, the
  reply is the success body.
\<close>

theorem search_results_sound:
  "case fst (search w rq) of
     Ok200 b \<Rightarrow>
       count b = length (results b) \<and>
       subseq (results b) (mockResults (clock w)) \<and>
       (\<forall>pm. rq ''priceMax'' = Some pm \<and> truthy pm \<longrightarrow> price_bounded pm (results b))
   | Error500 f \<Rightarrow> \<not> plain rq"
proof (cases "fst (search w rq)")
  case (Error500 f)
  then have "reply_results (fst (search w rq)) = None" by simp
  with search_plain [of rq w] have "\<not> plain rq" by auto
  with Error500 show ?thesis by simp
next
  case (Ok200 b)
  then have rs: "reply_results (fst (search w rq)) = Some (results b)" by simp
  from rs obtain sp where sp: "searchParams rq = Inr sp"
    by (auto simp add: search_results split: sum.splits)
  from rs sp obtain fs where
    fs: "price_filter (rq ''priceMax'') (mockResults (clock w)) = Inr fs"
    by (auto simp add: search_results split: sum.splits)
  from rs sp fs have sub: "subseq (results b) fs"
    by (auto simp add: search_results split: sum.splits if_splits dest: filter_try_subseq)
  from fs have "subseq fs (mockResults (clock w))" by (rule price_filter_subseq)
  with sub have s: "subseq (results b) (mockResults (clock w))"
    by (rule subseq_order.trans)
  have "price_bounded pm (results b)" if "rq ''priceMax'' = Some pm" "truthy pm" for pm
  proof -
    from fs that have "price_bounded pm fs"
      by (auto intro: price_filter_bounded)
    then show ?thesis using sub by (rule price_bounded_subseq)
  qed
  with s search_count [OF Ok200] Ok200 show ?thesis by auto
qed

theorem search_results_sound_witness:
  "(\<exists>b. fst (search world0 [''q'' \<mapsto> QStr ''iphone'', ''priceMax'' \<mapsto> QStr ''700'']) = Ok200 b \<and>
        map id_str (results b) = [''1''] \<and>
        count b = length (results b) \<and>
        subseq (results b) (mockResults (clock world0)) \<and>
        truthy (QStr ''700'') \<and>
        price_bounded (QStr ''700'') (results b)) \<and>
   (\<exists>f. fst (search world0 [''locationName'' \<mapsto> QOpaque]) = Error500 f) \<and>
   \<not> plain [''locationName'' \<mapsto> QOpaque]"
proof -
  have p: "[''q'' \<mapsto> QStr ''iphone'', ''priceMax'' \<mapsto> QStr ''700''] ''priceMax'' = Some (QStr ''700'')"
    by simp
  have ok: "reply_results (fst (search world0 [''q'' \<mapsto> QStr ''iphone'', ''priceMax'' \<mapsto> QStr ''700'']))
      = Some (filter (\<lambda>it. includes_str (toLowerCase (title it)) (toLowerCase ''iphone''))
          (filter (\<lambda>item. js_le (parseInt (strip_non_digits (price item))) (parseInt ''700''))
             (mockResults (clock world0))))"
    by (simp add: search_results searchParams_def param_def price_filter_def filter_try_QStr)
  then obtain b where b: "fst (search world0 [''q'' \<mapsto> QStr ''iphone'', ''priceMax'' \<mapsto> QStr ''700'']) = Ok200 b"
    by (cases "fst (search world0 [''q'' \<mapsto> QStr ''iphone'', ''priceMax'' \<mapsto> QStr ''700''])") simp_all
  with ok price_filter_700 have ids: "map id_str (results b) = [''1'']" by simp
  have "reply_results (fst (search world0 [''locationName'' \<mapsto> QOpaque])) = None"
    by (simp add: search_results searchParams_def param_def)
  then obtain f where f: "fst (search world0 [''locationName'' \<mapsto> QOpaque]) = Error500 f"
    by (cases "fst (search world0 [''locationName'' \<mapsto> QOpaque])") simp_all
  from search_results_sound [of world0 "[''q'' \<mapsto> QStr ''iphone'', ''priceMax'' \<mapsto> QStr ''700'']"]
    search_results_sound [of world0 "[''locationName'' \<mapsto> QOpaque]"] b f ids p
  show ?thesis by simp
qed

text \<open>
  C9 as stated fails in two places. With \<^verbatim>\<open>priceMax=\<close> (given, and empty) the first
  filter is skipped and all five listings are returned, while \<^verbatim>\<open>parseInt('')\<close> is
  \<^verbatim>\<open>NaN\<close> and no price is at most \<^verbatim>\<open>NaN\<close>. With \<^verbatim>\<open>q=a&q=b\<close> the value of
  \<open>q\<close> is an array, the second filter throws, and the reply is the failure body, which has
  neither \<open>count\<close> nor \<open>results\<close>.
\<close>

theorem search_results_counterexample:
  "reply_results (fst (search world0 [''priceMax'' \<mapsto> QStr '''']))
     = Some (mockResults (clock world0)) \<and>
   map id_str (mockResults (clock world0)) = [''1'', ''2'', ''3'', ''4'', ''5''] \<and>
   \<not> price_bounded (QStr '''') (mockResults (clock world0)) \<and>
   fst (search world0 [''q'' \<mapsto> QOther ''a,b''])
     = Error500 \<lparr>error = ''Fehler beim Laden der Suchergebnisse'',
                 details = ''q.toLowerCase is not a function''\<rparr> \<and>
   reply_results (fst (search world0 [''q'' \<mapsto> QOther ''a,b''])) = None"
proof -
  have a: "reply_results (fst (search world0 [''priceMax'' \<mapsto> QStr '''']))
     = Some (mockResults (clock world0))"
    by (simp add: search_results searchParams_def param_def price_filter_def)
  have nan: "parseInt '''' = NaN"
    by (simp add: parseInt_def)
  have b: "\<not> price_bounded (QStr '''') (mockResults (clock world0))"
    by (simp add: price_bounded_def nan mockResults_def)
  have ne: "mockResults (clock world0) \<noteq> []"
    by (simp add: mockResults_def)
  have c: "fst (search world0 [''q'' \<mapsto> QOther ''a,b''])
     = Error500 \<lparr>error = ''Fehler beim Laden der Suchergebnisse'',
                 details = ''q.toLowerCase is not a function''\<rparr>"
    using ne
    by (simp add: search_def search_failed_def searchParams_def param_def price_filter_def
        Let_def filter_try_not_string)
  from a b c mock_ids show ?thesis by simp
qed

text \<open>
  C10. When \<open>q\<close> is absent or is \<^verbatim>\<open>'technik'\<close>, the second filter is skipped: if
  nothing before it throws, the results are those of the price filter as they are, and
  since no mock title contains \<^verbatim>\<open>technik\<close>, they may hold items whose title does not
  contain the query. When \<open>q\<close> is another non-empty string, the results are the items of
  the price filter whose lower-cased title contains the lower-cased \<open>q\<close>, so each item
  returned does. When \<open>q\<close> is not a string, no item is returned at all. In each case a
  conversion that throws before the filters leaves a failure body, with no results; on a
  plain request there is none, and the reply has results.
\<close>

theorem title_filter_rule:
  "(rq ''q'' = None \<or> rq ''q'' = Some (QStr ''technik'') \<longrightarrow>
      reply_results (fst (search w rq)) =
        (case searchParams rq of
           Inl e \<Rightarrow> None
         | Inr sp \<Rightarrow>
             (case price_filter (rq ''priceMax'') (mockResults (clock w)) of
                Inl e \<Rightarrow> None
              | Inr fs \<Rightarrow> Some fs))) \<and>
   (\<forall>it \<in> set (mockResults (clock w)).
      \<not> includes_str (toLowerCase (title it)) (toLowerCase ''technik'')) \<and>
   (\<forall>s. rq ''q'' = Some (QStr s) \<and> s \<noteq> [] \<and> s \<noteq> ''technik'' \<longrightarrow>
      reply_results (fst (search w rq)) =
        (case searchParams rq of
           Inl e \<Rightarrow> None
         | Inr sp \<Rightarrow>
             (case price_filter (rq ''priceMax'') (mockResults (clock w)) of
                Inl e \<Rightarrow> None
              | Inr fs \<Rightarrow>
                  Some (filter (\<lambda>it. includes_str (toLowerCase (title it)) (toLowerCase s)) fs))) \<and>
      (\<forall>rs. reply_results (fst (search w rq)) = Some rs \<longrightarrow>
         (\<forall>it \<in> set rs. includes_str (toLowerCase (title it)) (toLowerCase s)))) \<and>
   (\<forall>v. rq ''q'' = Some v \<and> \<not> is_string v \<longrightarrow>
      reply_results (fst (search w rq)) = None \<or> reply_results (fst (search w rq)) = Some []) \<and>
   (plain rq \<longrightarrow> (\<exists>rs. reply_results (fst (search w rq)) = Some rs))"
proof (intro conjI impI allI)
  assume "rq ''q'' = None \<or> rq ''q'' = Some (QStr ''technik'')"
  then have "param rq ''q'' ''technik'' = QStr ''technik''"
    by (auto simp add: param_def)
  then show "reply_results (fst (search w rq)) =
        (case searchParams rq of
           Inl e \<Rightarrow> None
         | Inr sp \<Rightarrow>
             (case price_filter (rq ''priceMax'') (mockResults (clock w)) of
                Inl e \<Rightarrow> None
              | Inr fs \<Rightarrow> Some fs))"
    by (simp add: search_results split: sum.splits)
next
  have "list_all (\<lambda>t. \<not> includes_str (toLowerCase t) (toLowerCase ''technik''))
          (map title (mockResults (clock w)))"
    unfolding mock_titles by (rule no_title_has_technik)
  then show "\<forall>it \<in> set (mockResults (clock w)).
      \<not> includes_str (toLowerCase (title it)) (toLowerCase ''technik'')"
    by (simp add: list_all_iff)
next
  fix s
  assume "rq ''q'' = Some (QStr s) \<and> s \<noteq> [] \<and> s \<noteq> ''technik''"
  then have q: "param rq ''q'' ''technik'' = QStr s" and ne: "s \<noteq> []" and nd: "s \<noteq> ''technik''"
    by (simp_all add: param_def)
  show eq: "reply_results (fst (search w rq)) =
        (case searchParams rq of
           Inl e \<Rightarrow> None
         | Inr sp \<Rightarrow>
             (case price_filter (rq ''priceMax'') (mockResults (clock w)) of
                Inl e \<Rightarrow> None
              | Inr fs \<Rightarrow>
                  Some (filter (\<lambda>it. includes_str (toLowerCase (title it)) (toLowerCase s)) fs)))"
    using ne nd by (simp add: search_results q filter_try_QStr split: sum.splits)
  fix rs
  assume "reply_results (fst (search w rq)) = Some rs"
  with eq show "\<forall>it \<in> set rs. includes_str (toLowerCase (title it)) (toLowerCase s)"
    by (auto split: sum.splits)
next
  fix v
  assume "rq ''q'' = Some v \<and> \<not> is_string v"
  then have q: "param rq ''q'' ''technik'' = v" and ns: "\<not> is_string v"
    by (simp_all add: param_def)
  from ns have t: "truthy v" and d: "v \<noteq> QStr ''technik''"
    by (cases v; simp)+
  show "reply_results (fst (search w rq)) = None \<or> reply_results (fst (search w rq)) = Some []"
    using t d by (simp add: search_results q filter_try_not_string [OF ns] split: sum.splits)
next
  assume "plain rq"
  then show "\<exists>rs. reply_results (fst (search w rq)) = Some rs"
    by (rule search_plain)
qed

theorem title_filter_rule_witness:
  "reply_results (fst (search world0 Map.empty)) = Some (mockResults (clock world0)) \<and>
   (\<exists>rs. reply_results (fst (search world0 [''q'' \<mapsto> QStr ''GB''])) = Some rs \<and>
         map title rs =
           [''iPhone 13 Pro 128GB Space Gray'', ''Samsung Galaxy S23 Ultra 256GB'',
            ''MacBook Air M2 13'' @ [CHR 0x22] @ '' 256GB''] \<and>
         list_all (\<lambda>it. includes_str (toLowerCase (title it)) (toLowerCase ''GB'')) rs) \<and>
   reply_results (fst (search world0 [''q'' \<mapsto> QOther ''a,b''])) = None \<and>
   reply_results (fst (search world0 [''locationName'' \<mapsto> QOpaque])) = None \<and>
   plain [''q'' \<mapsto> QStr ''GB'']"
proof -
  have g: "map title (filter (\<lambda>it. includes_str (toLowerCase (title it)) (toLowerCase ''GB''))
                        (mockResults (clock world0)))
           = [''iPhone 13 Pro 128GB Space Gray'', ''Samsung Galaxy S23 Ultra 256GB'',
              ''MacBook Air M2 13'' @ [CHR 0x22] @ '' 256GB'']"
  proof -
    have "map title (filter (\<lambda>it. includes_str (toLowerCase (title it)) (toLowerCase ''GB''))
                        (mockResults (clock world0)))
          = filter (\<lambda>t. includes_str (toLowerCase t) (toLowerCase ''GB''))
              (map title (mockResults (clock world0)))"
      by (simp add: filter_map comp_def)
    also have "\<dots> = [''iPhone 13 Pro 128GB Space Gray'', ''Samsung Galaxy S23 Ultra 256GB'',
              ''MacBook Air M2 13'' @ [CHR 0x22] @ '' 256GB'']"
      unfolding mock_titles by (rule gb_titles)
    finally show ?thesis .
  qed
  have ne: "mockResults (clock world0) \<noteq> []"
    by (simp add: mockResults_def)
  have o: "reply_results (fst (search world0 [''q'' \<mapsto> QOther ''a,b''])) = None"
    using ne
    by (simp add: search_results searchParams_def param_def price_filter_def filter_try_not_string)
  have sp0: "\<exists>sp. searchParams rq = Inr sp"
    if "rq = Map.empty \<or> rq = [''q'' \<mapsto> QStr ''GB'']" for rq
    using that by (auto simp add: searchParams_def param_def)
  have spo: "\<exists>e. searchParams [''locationName'' \<mapsto> QOpaque] = Inl e"
    by (simp add: searchParams_def param_def)
  have pl: "plain [''q'' \<mapsto> QStr ''GB'']"
    by (simp add: plain_def)
  from title_filter_rule [of Map.empty world0] title_filter_rule [of "[''q'' \<mapsto> QStr ''GB'']" world0]
    title_filter_rule [of "[''q'' \<mapsto> QOther ''a,b'']" world0]
    title_filter_rule [of "[''locationName'' \<mapsto> QOpaque]" world0]
    sp0 [of Map.empty] sp0 [of "[''q'' \<mapsto> QStr ''GB'']"] spo g o pl
  show ?thesis
    by (auto simp add: price_filter_def list_all_iff)
qed

end
